theory Spec2Isabelle
  imports Complex_Main
begin

section \<open>Python and numpy primitives used by predict.py\<close>

text \<open>
  Floating-point numbers are modelled as reals. The one not-a-number value that the
  modelled code can itself create from finite data, the mean of an empty array, is kept
  as the separate value \<open>NaN\<close>; every comparison with it is false, as in numpy.
\<close>

datatype error = IndexError | ValueError

datatype np_float = Num real | NaN

text \<open>\<^verbatim>\<open>hr > min_hr\<close> for a numpy scalar on the left.\<close>

fun np_gt :: "np_float \<Rightarrow> real \<Rightarrow> bool" where
  "np_gt (Num x) y = (y < x)"
| "np_gt NaN y = False"

text \<open>\<^verbatim>\<open>np.mean\<close>: the mean of an empty array is nan (a warning, no exception).\<close>

definition np_mean :: "real list \<Rightarrow> np_float" where
  "np_mean xs = (if xs = [] then NaN else Num (sum_list xs / real (length xs)))"

text \<open>\<^verbatim>\<open>a.max()\<close>: raises ValueError on an empty array.\<close>

fun np_max :: "real list \<Rightarrow> error + real" where
  "np_max [] = Inl ValueError"
| "np_max (x # xs) = Inr (fold max xs x)"

text \<open>
  \<^verbatim>\<open>np.argmax(a, axis=0)\<close> on a one-dimensional array: the index of the first
  occurrence of the maximum; raises ValueError on an empty array.
\<close>

fun first_index :: "real \<Rightarrow> real list \<Rightarrow> nat" where
  "first_index v [] = 0"
| "first_index v (y # ys) = (if y = v then 0 else Suc (first_index v ys))"

fun np_argmax :: "real list \<Rightarrow> error + nat" where
  "np_argmax [] = Inl ValueError"
| "np_argmax (x # xs) = Inr (first_index (fold max xs x) (x # xs))"

text \<open>\<^verbatim>\<open>s.split(sep)\<close> for a one-character separator: the result is never empty.\<close>

fun str_split :: "char \<Rightarrow> string \<Rightarrow> string list" where
  "str_split c [] = [[]]"
| "str_split c (x # xs) =
     (if x = c then [] # str_split c xs
      else (case str_split c xs of
              [] \<Rightarrow> [[x]]
            | w # ws \<Rightarrow> (x # w) # ws))"

text \<open>\<^verbatim>\<open>os.path\<close> on a POSIX system (the source itself splits paths at "/").\<close>

definition dirname :: "string \<Rightarrow> string" where
  "dirname p =
     (let head = rev (dropWhile (\<lambda>c. c \<noteq> CHR ''/'') (rev p))
      in if head \<noteq> [] \<and> \<not> list_all (\<lambda>c. c = CHR ''/'') head
         then rev (dropWhile (\<lambda>c. c = CHR ''/'') (rev head))
         else head)"

definition basename :: "string \<Rightarrow> string" where
  "basename p = rev (takeWhile (\<lambda>c. c \<noteq> CHR ''/'') (rev p))"

definition path_join :: "string \<Rightarrow> string \<Rightarrow> string" where
  "path_join a b =
     (if b \<noteq> [] \<and> hd b = CHR ''/'' then b
      else if a = [] \<or> last a = CHR ''/'' then a @ b
      else a @ ''/'' @ b)"

section \<open>The world: files, directories and what the program emits\<close>

record detection =
  det_start :: nat
  det_end :: nat
  det_label :: nat
  det_confidence :: real
  det_hr :: np_float

datatype csv_line = Header "string list" | Row detection

text \<open>
  The three messages of the program:
  \<^verbatim>\<open>No detection has been made for <file>\<close>, \<^verbatim>\<open>File <name> already exists\<close> and
  \<^verbatim>\<open>Finished <file> in <t> seconds\<close> (the elapsed wall-clock time is not modelled).
\<close>

datatype message = No_detection string | Already_exists string | Finished string

datatype event =
    Print message
  | LogInfo message
  | Write_file string "csv_line list"

record world =
  files :: "string \<rightharpoonup> csv_line list"
  dirs :: "string set"
  events :: "event list"

text \<open>
  Paths are compared as they are written: a relative path names a file of the working
  directory. Of the directories only those named are tracked.
\<close>

definition path_exists :: "world \<Rightarrow> string \<Rightarrow> bool" where
  "path_exists w p = (p \<in> dom (files w) \<or> p \<in> dirs w)"

definition makedirs :: "string \<Rightarrow> world \<Rightarrow> world" where
  "makedirs p w = w\<lparr>dirs := insert p (dirs w)\<rparr>"

text \<open>\<^verbatim>\<open>open(outname, "w")\<close> followed by the writes: the file is created or truncated.\<close>

definition write_csv :: "string \<Rightarrow> csv_line list \<Rightarrow> world \<Rightarrow> world" where
  "write_csv p content w =
     w\<lparr>files := (files w)(p \<mapsto> content), events := events w @ [Write_file p content]\<rparr>"

definition emit :: "event list \<Rightarrow> world \<Rightarrow> world" where
  "emit es w = w\<lparr>events := events w @ es\<rparr>"

section \<open>External collaborators\<close>

text \<open>
  \<^verbatim>\<open>AudioSignal\<close> and \<^verbatim>\<open>AudioList\<close> live in the repository's \<^verbatim>\<open>utils\<close> package,
  \<^verbatim>\<open>DataLoader\<close> and the model come from torch. They are parameters of the embedding:
  \<open>'c\<close> is a processed clip, \<open>'b\<close> a batch as the loader yields it. \<open>model\<close> stands for
  the forward pass followed by the conversion to a numpy array (one row per clip of the
  batch, log-probabilities per class). \<open>DataLoader\<close> receives the list and the batch size;
  the number of workers and the memory pinning do not change what it yields.
  \<open>apply_butterworth_filter\<close> changes the signal in place and is given here as the
  function from the old signal to the new one.
\<close>

record 'b AudioSignal =
  samples :: 'b
  fs :: nat

record ('c, 'b) externals =
  get_processed_list :: "string \<Rightarrow> 'c list"
  DataLoader :: "'c list \<Rightarrow> nat \<Rightarrow> 'b list"
  model :: "'b \<Rightarrow> real list list"
  apply_butterworth_filter :: "nat \<Rightarrow> real list \<Rightarrow> 'b AudioSignal \<Rightarrow> 'b AudioSignal"
  harmonic_ratio :: "'b AudioSignal \<Rightarrow> nat \<Rightarrow> nat \<Rightarrow> string \<Rightarrow> real list"

section \<open>compute\_hr\<close>

definition compute_hr :: "('c, 'b) externals \<Rightarrow> 'b \<Rightarrow> np_float" where
  "compute_hr ext array =
     (let signal = \<lparr>samples = array, fs = 44100\<rparr>;
          signal = apply_butterworth_filter ext 18
                     (map (\<lambda>x. x / (real (fs signal) / 2)) [1, 600]) signal;
          signal_hr = harmonic_ratio ext signal
                        (nat \<lfloor>1 * real (fs signal)\<rfloor>)
                        (nat \<lfloor>(1 / 10) * real (fs signal)\<rfloor>)
                        ''hamming'';
          hr = np_mean signal_hr
      in hr)"

section \<open>predict\<close>

text \<open>
  The loop state holds the two result lists; \<open>hr_computed\<close> records, in order, the
  batches on which \<open>compute_hr\<close> was called. The device only decides a tensor
  conversion and is left out.
\<close>

record 'b predict_state =
  proba_list :: "real list list"
  hr_list :: "np_float list"
  hr_computed :: "'b list"

fun predict_loop ::
  "('c, 'b) externals \<Rightarrow> 'b list \<Rightarrow> real \<Rightarrow> 'b predict_state \<Rightarrow> error + 'b predict_state"
where
  "predict_loop ext [] threshold st = Inr st"
| "predict_loop ext (array # rest) threshold st =
     (let output = map (map exp) (model ext array)
      in case output of
           [] \<Rightarrow> Inl IndexError
         | output0 # _ \<Rightarrow>
             (let st = st\<lparr>proba_list := proba_list st @ [output0]\<rparr>
              in case np_max output0 of
                   Inl e \<Rightarrow> Inl e
                 | Inr max_value \<Rightarrow>
                     if max_value \<ge> threshold
                     then predict_loop ext rest threshold
                            (st\<lparr>hr_list := hr_list st @ [compute_hr ext array],
                                hr_computed := hr_computed st @ [array]\<rparr>)
                     else predict_loop ext rest threshold
                            (st\<lparr>hr_list := hr_list st @ [Num 0]\<rparr>)))"

definition predict_init :: "'b predict_state" where
  "predict_init = \<lparr>proba_list = [], hr_list = [], hr_computed = []\<rparr>"

definition predict ::
  "('c, 'b) externals \<Rightarrow> 'b list \<Rightarrow> real \<Rightarrow> error + (real list list \<times> np_float list)"
where
  "predict ext testLoader threshold =
     (case predict_loop ext testLoader threshold predict_init of
        Inl e \<Rightarrow> Inl e
      | Inr st \<Rightarrow> Inr (proba_list st, hr_list st))"

text \<open>The default of the parameter \<^verbatim>\<open>threshold\<close>.\<close>

definition default_threshold :: real where
  "default_threshold = 99 / 100"

section \<open>write\_results\<close>

definition header :: "string list" where
  "header = [''start_detection'', ''end_detection'', ''label'', ''confidence'', ''hr'']"

text \<open>
  The loop over \<^verbatim>\<open>zip(prob_audioclip_array, hr_array)\<close>. The block that writes the file
  or reports that there is no detection is part of the loop body. The function returns
  the exception raised, if any, the list \<^verbatim>\<open>rows_for_csv\<close> as it stands when the loop is
  left, and the world; what was written before an exception stays written.
\<close>

fun write_loop ::
  "string \<Rightarrow> real \<Rightarrow> real \<Rightarrow> (real list \<times> np_float) list \<Rightarrow> nat \<Rightarrow> detection list \<Rightarrow> world
     \<Rightarrow> error option \<times> detection list \<times> world"
where
  "write_loop outname min_hr min_conf [] idx_begin rows_for_csv w = (None, rows_for_csv, w)"
| "write_loop outname min_hr min_conf ((conf, hr) # rest) idx_begin rows_for_csv w =
     (let idx_end = idx_begin + 3
      in case np_argmax conf of
           Inl e \<Rightarrow> (Some e, rows_for_csv, w)
         | Inr label \<Rightarrow>
             (case np_max conf of
                Inl e \<Rightarrow> (Some e, rows_for_csv, w)
              | Inr max_value \<Rightarrow>
                  (let rows_for_csv =
                         (if label \<noteq> 0 \<and> np_gt hr min_hr \<and> max_value > min_conf
                          then rows_for_csv @
                                 [\<lparr>det_start = idx_begin, det_end = idx_end, det_label = label,
                                   det_confidence = max_value, det_hr = hr\<rparr>]
                          else rows_for_csv);
                       w = (if length rows_for_csv > 0
                            then write_csv outname (Header header # map Row rows_for_csv) w
                            else emit [Print (No_detection (basename outname)),
                                       LogInfo (No_detection (basename outname))] w)
                   in write_loop outname min_hr min_conf rest idx_end rows_for_csv w)))"

definition write_results ::
  "real list list \<Rightarrow> np_float list \<Rightarrow> string \<Rightarrow> real \<Rightarrow> real \<Rightarrow> world \<Rightarrow> error option \<times> world"
where
  "write_results prob_audioclip_array hr_array outname min_hr min_conf w =
     (case write_loop outname min_hr min_conf (zip prob_audioclip_array hr_array) 0 [] w of
        (e, rows_for_csv, w') \<Rightarrow> (e, w'))"

section \<open>analyzeFile\<close>

definition analyzeFile ::
  "('c, 'b) externals \<Rightarrow> string \<Rightarrow> real \<Rightarrow> real \<Rightarrow> nat \<Rightarrow> world \<Rightarrow> error option \<times> world"
where
  "analyzeFile ext file_path min_hr min_conf batch_size w =
     (let input_dir = dirname file_path;
          result_folder = path_join input_dir ''SNOWMOBILE_RESULTS'';
          w = (if \<not> path_exists w result_folder then makedirs result_folder w else w);
          outname = hd (str_split CHR ''.'' (last (str_split CHR ''/'' file_path)))
                      @ ''_ANALYZED.csv'';
          outpath = path_join result_folder outname
      in if path_exists w outname
         then (None, emit [Print (Already_exists outname)] w)
         else
           (let list_preds = get_processed_list ext file_path;
                predLoader = DataLoader ext list_preds batch_size
            in case predict ext predLoader default_threshold of
                 Inl e \<Rightarrow> (Some e, w)
               | Inr (pred_audioclip_array, pred_hr_array) \<Rightarrow>
                   (case write_results pred_audioclip_array pred_hr_array outpath
                           min_hr min_conf w of
                      (Some e, w') \<Rightarrow> (Some e, w')
                    | (None, w') \<Rightarrow>
                        (None, emit [Print (Finished file_path),
                                     LogInfo (Finished file_path)] w'))))"

section \<open>Functions used to state the properties\<close>

text \<open>
  The gate of the loop body of \<open>write_loop\<close> and the row it appends, written with the
  mathematical maximum and the first index that reaches it.
\<close>

definition qualifies :: "real \<Rightarrow> real \<Rightarrow> real list \<times> np_float \<Rightarrow> bool" where
  "qualifies min_hr min_conf item =
     (first_index (Max (set (fst item))) (fst item) \<noteq> 0 \<and> np_gt (snd item) min_hr
        \<and> min_conf < Max (set (fst item)))"

definition row_of :: "nat \<Rightarrow> real list \<times> np_float \<Rightarrow> detection" where
  "row_of idx item =
     \<lparr>det_start = idx, det_end = idx + 3,
      det_label = first_index (Max (set (fst item))) (fst item),
      det_confidence = Max (set (fst item)), det_hr = snd item\<rparr>"

text \<open>The rows that a run of the loop over \<open>items\<close> appends, starting at offset \<open>idx\<close>.\<close>

fun candidates :: "real \<Rightarrow> real \<Rightarrow> nat \<Rightarrow> (real list \<times> np_float) list \<Rightarrow> detection list" where
  "candidates min_hr min_conf idx [] = []"
| "candidates min_hr min_conf idx (item # rest) =
     (if qualifies min_hr min_conf item then [row_of idx item] else [])
       @ candidates min_hr min_conf (idx + 3) rest"

text \<open>The probabilities that \<open>predict_loop\<close> records for one batch.\<close>

definition clip_probs :: "('c, 'b) externals \<Rightarrow> 'b \<Rightarrow> real list" where
  "clip_probs ext array = (case model ext array of [] \<Rightarrow> [] | output0 # _ \<Rightarrow> map exp output0)"

text \<open>The confidence gate, as the specification names it.\<close>

definition should_verify :: "real list \<Rightarrow> real \<Rightarrow> bool" where
  "should_verify probabilities threshold = (Max (set probabilities) \<ge> threshold)"

text \<open>The duration of a clip in seconds: the literal of \<^verbatim>\<open>idx_end = idx_begin + 3\<close>.\<close>

definition clip_duration :: nat where
  "clip_duration = 3"

section \<open>Concrete inputs\<close>

definition empty_world :: world where
  "empty_world = \<lparr>files = Map.empty, dirs = {}, events = []\<rparr>"

text \<open>
  Three clips, one per batch. The classifier is sure of class 2 on clip 1 exactly at the
  default threshold and just below it on clip 2; clip 0 is background.
\<close>

definition demo_ext :: "(nat, nat) externals" where
  "demo_ext =
     \<lparr>get_processed_list = (\<lambda>p. [0, 1, 2]),
      DataLoader = (\<lambda>list_preds batch_size. list_preds),
      model = (\<lambda>b. if b = 0 then [[ln (1 / 2), ln (3 / 10), ln (1 / 5)]]
                     else if b = 1 then [[ln (1 / 200), ln (1 / 200), ln (99 / 100)]]
                     else [[ln (1 / 10000), ln (1 / 100), ln (9899 / 10000)]]),
      apply_butterworth_filter = (\<lambda>order Wn signal. signal),
      harmonic_ratio = (\<lambda>signal win_length hop_length window.
                          if samples signal = 1 then [1 / 10, 1 / 5] else [1 / 20])\<rparr>"

text \<open>
  A world in which \<^verbatim>\<open>/data/rec1.wav\<close> has been analysed before: the result folder and the
  artifact exist. The working directory holds no file of the artifact's name.
\<close>

definition existing_world :: world where
  "existing_world =
     \<lparr>files = [''/data/SNOWMOBILE_RESULTS/rec1_ANALYZED.csv'' \<mapsto>
                 [Header header,
                  Row \<lparr>det_start = 0, det_end = 3, det_label = 1, det_confidence = 199 / 200,
                      det_hr = Num (2 / 5)\<rparr>]],
      dirs = {''/data'', ''/data/SNOWMOBILE_RESULTS''},
      events = []\<rparr>"

section \<open>Auxiliary lemmas\<close>

lemma str_split_nonempty: "str_split c s \<noteq> []"
  by (induction s) (auto split: list.splits)

lemma fold_max_Max: "fold max xs x = Max (set (x # xs))"
  by (simp only: Max.set_eq_fold)

lemma np_max_Inr: "np_max xs = Inr m \<longleftrightarrow> xs \<noteq> [] \<and> m = Max (set xs)"
  by (cases xs) (auto simp only: np_max.simps fold_max_Max)

lemma np_argmax_Inr:
  "np_argmax xs = Inr l \<longleftrightarrow> xs \<noteq> [] \<and> l = first_index (Max (set xs)) xs"
  by (cases xs) (auto simp only: np_argmax.simps fold_max_Max)

lemma np_max_Inl: "np_max xs = Inl e \<longleftrightarrow> xs = [] \<and> e = ValueError"
  by (cases xs) auto

lemma np_argmax_Inl: "np_argmax xs = Inl e \<longleftrightarrow> xs = [] \<and> e = ValueError"
  by (cases xs) auto

lemma first_index_props:
  "v \<in> set xs \<Longrightarrow>
     first_index v xs < length xs \<and> xs ! first_index v xs = v
       \<and> (\<forall>j < first_index v xs. xs ! j \<noteq> v)"
proof (induction xs)
  case Nil
  then show ?case by simp
next
  case (Cons y ys)
  show ?case
  proof (cases "y = v")
    case True
    then show ?thesis by simp
  next
    case False
    with Cons have IH: "first_index v ys < length ys \<and> ys ! first_index v ys = v
       \<and> (\<forall>j < first_index v ys. ys ! j \<noteq> v)" by simp
    show ?thesis using False IH by (auto simp: nth_Cons split: nat.splits)
  qed
qed

lemma write_loop_step:
  "conf \<noteq> [] \<Longrightarrow>
   write_loop outname min_hr min_conf ((conf, hr) # rest) idx acc w =
     (let acc' = (if qualifies min_hr min_conf (conf, hr) then acc @ [row_of idx (conf, hr)] else acc);
          w' = (if acc' \<noteq> []
                then write_csv outname (Header header # map Row acc') w
                else emit [Print (No_detection (basename outname)),
                           LogInfo (No_detection (basename outname))] w)
      in write_loop outname min_hr min_conf rest (idx + 3) acc' w')"
  by (cases conf) (simp_all add: Let_def qualifies_def row_of_def fold_max_Max del: Max_insert set_simps)

lemma write_loop_fail:
  "write_loop outname min_hr min_conf (([], hr) # rest) idx acc w = (Some ValueError, acc, w)"
  by simp

lemma write_loop_rows:
  "write_loop outname min_hr min_conf items idx acc w = (e, rows, w') \<Longrightarrow>
     \<exists>k \<le> length items. rows = acc @ candidates min_hr min_conf idx (take k items)
        \<and> (e = None \<longrightarrow> k = length items)"
proof (induction items arbitrary: idx acc w)
  case Nil
  then show ?case by simp
next
  case (Cons item rest)
  obtain conf hr where item: "item = (conf, hr)" by (cases item)
  show ?case
  proof (cases "conf = []")
    case True
    with Cons.prems item have "rows = acc" "e = Some ValueError" by simp_all
    then show ?thesis by (intro exI[of _ 0]) simp
  next
    case False
    define acc' where "acc' = (if qualifies min_hr min_conf (conf, hr) then acc @ [row_of idx (conf, hr)] else acc)"
    define w1 where "w1 = (if acc' \<noteq> []
                then write_csv outname (Header header # map Row acc') w
                else emit [Print (No_detection (basename outname)),
                           LogInfo (No_detection (basename outname))] w)"
    have "write_loop outname min_hr min_conf ((conf, hr) # rest) idx acc w =
            write_loop outname min_hr min_conf rest (idx + 3) acc' w1"
      unfolding acc'_def w1_def using write_loop_step[OF False] by (simp only: Let_def)
    with Cons.prems item
    have "write_loop outname min_hr min_conf rest (idx + 3) acc' w1 = (e, rows, w')"
      by simp
    from Cons.IH[OF this] obtain k where k: "k \<le> length rest"
      "rows = acc' @ candidates min_hr min_conf (idx + 3) (take k rest)"
      "e = None \<longrightarrow> k = length rest" by blast
    show ?thesis
      using k unfolding item acc'_def
      by (intro exI[of _ "Suc k"]) simp
  qed
qed

lemma candidates_map_filter:
  "candidates min_hr min_conf idx items =
     map (\<lambda>i. row_of (idx + 3 * i) (items ! i))
       (filter (\<lambda>i. qualifies min_hr min_conf (items ! i)) [0..<length items])"
proof (induction items arbitrary: idx)
  case Nil
  then show ?case by simp
next
  case (Cons item rest)
  have upt: "[0..<length (item # rest)] = 0 # map Suc [0..<length rest]"
    by (simp add: upt_conv_Cons map_Suc_upt del: upt_Suc)
  show ?case
    unfolding upt by (simp add: Cons.IH filter_map comp_def add.assoc)
qed

lemma candidates_start:
  "r \<in> set (candidates min_hr min_conf idx items) \<longleftrightarrow>
     (\<exists>i < length items. qualifies min_hr min_conf (items ! i) \<and> r = row_of (idx + 3 * i) (items ! i))"
  unfolding candidates_map_filter by auto

lemma candidates_take_subset:
  "set (candidates min_hr min_conf idx (take k items)) \<subseteq> set (candidates min_hr min_conf idx items)"
proof
  fix r assume "r \<in> set (candidates min_hr min_conf idx (take k items))"
  then obtain i where "i < length (take k items)" "qualifies min_hr min_conf (take k items ! i)"
     "r = row_of (idx + 3 * i) (take k items ! i)"
    unfolding candidates_start by blast
  then have "i < length items \<and> qualifies min_hr min_conf (items ! i) \<and> r = row_of (idx + 3 * i) (items ! i)"
    by simp
  then show "r \<in> set (candidates min_hr min_conf idx items)"
    unfolding candidates_start by blast
qed

lemma candidates_sorted: "sorted (map det_start (candidates min_hr min_conf idx items))"
proof -
  have "sorted (map (\<lambda>i. idx + 3 * i) [0..<length items])"
    by (simp add: sorted_map sorted_wrt_iff_nth_less)
  then have "sorted (map (\<lambda>i. idx + 3 * i)
     (filter (\<lambda>i. qualifies min_hr min_conf (items ! i)) [0..<length items]))"
    by (rule sorted_filter)
  then show ?thesis
    unfolding candidates_map_filter by (simp add: comp_def row_of_def)
qed

lemma write_loop_files:
  assumes "write_loop outname min_hr min_conf items idx acc w = (e, rows, w')"
    and "acc = [] \<or> files w outname = Some (Header header # map Row acc)"
  shows "files w' = (if rows = [] then files w
                     else (files w)(outname \<mapsto> Header header # map Row rows))"
  using assms
proof (induction items arbitrary: idx acc w)
  case Nil
  then show ?case by auto
next
  case (Cons item rest)
  obtain conf hr where item: "item = (conf, hr)" by (cases item)
  show ?case
  proof (cases "conf = []")
    case True
    with Cons.prems item have "rows = acc" "w' = w" by simp_all
    with Cons.prems(2) show ?thesis by auto
  next
    case False
    define acc' where "acc' = (if qualifies min_hr min_conf (conf, hr) then acc @ [row_of idx (conf, hr)] else acc)"
    define w1 where "w1 = (if acc' \<noteq> []
                then write_csv outname (Header header # map Row acc') w
                else emit [Print (No_detection (basename outname)),
                           LogInfo (No_detection (basename outname))] w)"
    have "write_loop outname min_hr min_conf ((conf, hr) # rest) idx acc w =
            write_loop outname min_hr min_conf rest (idx + 3) acc' w1"
      unfolding acc'_def w1_def using write_loop_step[OF False] by (simp only: Let_def)
    with Cons.prems item
    have run: "write_loop outname min_hr min_conf rest (idx + 3) acc' w1 = (e, rows, w')"
      by simp
    have inv: "acc' = [] \<or> files w1 outname = Some (Header header # map Row acc')"
      unfolding w1_def by (simp add: write_csv_def)
    have IH: "files w' = (if rows = [] then files w1
                     else (files w1)(outname \<mapsto> Header header # map Row rows))"
      by (rule Cons.IH[OF run inv])
    from write_loop_rows[OF run] obtain ys where rows: "rows = acc' @ ys" by blast
    show ?thesis
    proof (cases "acc' = []")
      case True
      then have "files w1 = files w" unfolding w1_def by (simp add: emit_def)
      with IH show ?thesis by simp
    next
      case False
      then have "files w1 = (files w)(outname \<mapsto> Header header # map Row acc')"
        unfolding w1_def by (simp add: write_csv_def)
      moreover have "rows \<noteq> []" using rows False by simp
      ultimately show ?thesis using IH by simp
    qed
  qed
qed

lemma predict_loop_inv:
  "predict_loop ext testLoader threshold st = Inr st' \<Longrightarrow>
     proba_list st' = proba_list st @ map (clip_probs ext) testLoader
     \<and> hr_list st' = hr_list st @
          map (\<lambda>a. if should_verify (clip_probs ext a) threshold then compute_hr ext a else Num 0) testLoader
     \<and> hr_computed st' = hr_computed st @ filter (\<lambda>a. should_verify (clip_probs ext a) threshold) testLoader
     \<and> list_all (\<lambda>a. clip_probs ext a \<noteq> []) testLoader"
proof (induction testLoader arbitrary: st)
  case Nil
  then show ?case by simp
next
  case (Cons array rest)
  from Cons.prems obtain output0 tl0 where out: "model ext array = output0 # tl0"
    by (cases "model ext array") (simp_all add: Let_def)
  have cp: "clip_probs ext array = map exp output0" by (simp add: clip_probs_def out)
  from Cons.prems out have ne: "output0 \<noteq> []"
    by (cases output0) (simp_all add: Let_def)
  then have mx: "np_max (map exp output0) = Inr (Max (set (map exp output0)))"
    by (simp add: np_max_Inr)
  show ?case
  proof (cases "should_verify (clip_probs ext array) threshold")
    case True
    then have "predict_loop ext rest threshold
       (st\<lparr>proba_list := proba_list st @ [map exp output0],
           hr_list := hr_list st @ [compute_hr ext array],
           hr_computed := hr_computed st @ [array]\<rparr>) = Inr st'"
      using Cons.prems out mx by (simp add: Let_def should_verify_def cp del: np_max.simps)
    from Cons.IH[OF this] show ?thesis using True cp ne by simp
  next
    case False
    then have "predict_loop ext rest threshold
       (st\<lparr>proba_list := proba_list st @ [map exp output0],
           hr_list := hr_list st @ [Num 0]\<rparr>) = Inr st'"
      using Cons.prems out mx by (simp add: Let_def should_verify_def cp del: np_max.simps)
    from Cons.IH[OF this] show ?thesis using False cp ne by simp
  qed
qed

lemma write_loop_ok_nonempty:
  "write_loop outname min_hr min_conf items idx acc w = (None, rows, w') \<Longrightarrow>
     list_all (\<lambda>item. fst item \<noteq> []) items"
proof (induction items arbitrary: idx acc w)
  case Nil
  then show ?case by simp
next
  case (Cons item rest)
  obtain conf hr where item: "item = (conf, hr)" by (cases item)
  have ne: "conf \<noteq> []"
  proof
    assume "conf = []"
    with Cons.prems item show False by simp
  qed
  have "\<exists>acc' w1. write_loop outname min_hr min_conf ((conf, hr) # rest) idx acc w =
            write_loop outname min_hr min_conf rest (idx + 3) acc' w1"
    unfolding write_loop_step[OF ne] Let_def by blast
  with Cons.prems item
  obtain acc' w1 where "write_loop outname min_hr min_conf rest (idx + 3) acc' w1 = (None, rows, w')"
    by auto
  from Cons.IH[OF this] show ?case using ne item by simp
qed

lemma write_loop_ok_rows:
  assumes "write_loop outname min_hr min_conf items idx acc w = (None, rows, w')"
  shows "rows = acc @ candidates min_hr min_conf idx items"
  using write_loop_rows[OF assms] by auto

section \<open>The detection gate\<close>

text \<open>
  Claim C1. \<open>write_results\<close> runs \<open>write_loop\<close> from offset 0 with no rows. When the loop
  ends without an exception, \<open>np.argmax\<close> and \<open>max\<close> return on every clip, and a row for
  clip \<open>i\<close> (the row that starts at \<open>3 * i\<close>) is among the rows exactly when the label is
  not 0, the harmonic ratio is strictly greater than \<open>min_hr\<close> and the maximum probability is
  strictly greater than \<open>min_conf\<close>. If there are rows, the file holds the header and
  exactly these rows; if there are none, no file is touched.
\<close>

theorem detection_emitted_iff_gates:
  assumes run: "write_loop outname min_hr min_conf (zip prob_audioclip_array hr_array) 0 [] w
                  = (None, rows, w')"
    and i1: "i < length prob_audioclip_array" and i2: "i < length hr_array"
  shows "\<exists>label max_value.
           np_argmax (prob_audioclip_array ! i) = Inr label
         \<and> np_max (prob_audioclip_array ! i) = Inr max_value
         \<and> ((\<exists>r \<in> set rows. det_start r = 3 * i) \<longleftrightarrow>
              (label \<noteq> 0 \<and> np_gt (hr_array ! i) min_hr \<and> max_value > min_conf))
         \<and> (if rows = [] then files w' = files w
            else files w' = (files w)(outname \<mapsto> Header header # map Row rows))"
proof -
  let ?items = "zip prob_audioclip_array hr_array"
  let ?conf = "prob_audioclip_array ! i"
  have len: "i < length ?items" using i1 i2 by simp
  have item: "?items ! i = (?conf, hr_array ! i)" using i1 i2 by simp
  from write_loop_ok_nonempty[OF run] len have ne: "?conf \<noteq> []"
    using item by (auto simp: list_all_length)
  have rows: "rows = candidates min_hr min_conf 0 ?items"
    using write_loop_ok_rows[OF run] by simp
  have mem: "r \<in> set rows \<longleftrightarrow>
      (\<exists>j < length ?items. qualifies min_hr min_conf (?items ! j) \<and> r = row_of (3 * j) (?items ! j))"
    for r unfolding rows candidates_start by simp
  have "(\<exists>r \<in> set rows. det_start r = 3 * i) \<longleftrightarrow> qualifies min_hr min_conf (?items ! i)"
  proof
    assume "\<exists>r \<in> set rows. det_start r = 3 * i"
    then obtain j where "j < length ?items" "qualifies min_hr min_conf (?items ! j)"
      "det_start (row_of (3 * j) (?items ! j)) = 3 * i"
      by (auto simp: mem)
    moreover then have "j = i" by (simp add: row_of_def)
    ultimately show "qualifies min_hr min_conf (?items ! i)" by simp
  next
    assume "qualifies min_hr min_conf (?items ! i)"
    with len have "row_of (3 * i) (?items ! i) \<in> set rows"
      by (auto simp: mem)
    then show "\<exists>r \<in> set rows. det_start r = 3 * i"
      by (rule bexI[rotated]) (simp add: row_of_def)
  qed
  then have iff: "(\<exists>r \<in> set rows. det_start r = 3 * i) \<longleftrightarrow>
      (first_index (Max (set ?conf)) ?conf \<noteq> 0 \<and> np_gt (hr_array ! i) min_hr
         \<and> min_conf < Max (set ?conf))"
    by (simp add: qualifies_def item)
  have files: "files w' = (if rows = [] then files w
                     else (files w)(outname \<mapsto> Header header # map Row rows))"
    by (rule write_loop_files[OF run]) simp
  have "np_argmax ?conf = Inr (first_index (Max (set ?conf)) ?conf)"
    using ne by (simp add: np_argmax_Inr)
  moreover have "np_max ?conf = Inr (Max (set ?conf))"
    using ne by (simp add: np_max_Inr)
  ultimately show ?thesis using iff files by auto
qed

theorem detection_emitted_iff_gates_witness:
  "fst (write_loop ''rec1_ANALYZED.csv'' (1 / 10) (99 / 100)
          (zip [[1 / 2, 3 / 10, 1 / 5], [1 / 400, 1 / 400, 199 / 200], [1 / 400, 1 / 400, 199 / 200]]
               [Num 0, Num (3 / 20), Num (1 / 20)]) 0 [] empty_world) = None
   \<and> (1::nat) < length [[1 / 2, 3 / 10, 1 / 5], [1 / 400, 1 / 400, 199 / 200], [1 / 400, 1 / 400, 199 / 200 :: real]]
   \<and> (1::nat) < length [Num 0, Num (3 / 20), Num (1 / 20)]
   \<and> np_argmax [1 / 400, 1 / 400, 199 / 200] = Inr 2
   \<and> np_max [1 / 400, 1 / 400, 199 / 200] = Inr (199 / 200)
   \<and> fst (snd (write_loop ''rec1_ANALYZED.csv'' (1 / 10) (99 / 100)
          (zip [[1 / 2, 3 / 10, 1 / 5], [1 / 400, 1 / 400, 199 / 200], [1 / 400, 1 / 400, 199 / 200]]
               [Num 0, Num (3 / 20), Num (1 / 20)]) 0 [] empty_world))
       = [\<lparr>det_start = 3, det_end = 6, det_label = 2, det_confidence = 199 / 200,
           det_hr = Num (3 / 20)\<rparr>]"
proof -
  let ?res = "write_loop ''rec1_ANALYZED.csv'' (1 / 10) (99 / 100)
          (zip [[1 / 2, 3 / 10, 1 / 5], [1 / 400, 1 / 400, 199 / 200], [1 / 400, 1 / 400, 199 / 200]]
               [Num 0, Num (3 / 20), Num (1 / 20)]) 0 [] empty_world"
  have ok: "fst ?res = None" by simp
  then have run: "?res = (None, fst (snd ?res), snd (snd ?res))"
    by (metis prod.collapse)
  from detection_emitted_iff_gates[OF run, of 1] show ?thesis by simp
qed

section \<open>The confidence gate\<close>

lemma should_verify_Cons:
  "should_verify (x # xs) threshold = (threshold \<le> fold max xs x)"
  unfolding should_verify_def by (simp only: fold_max_Max)

lemma predict_loop_length:
  assumes "predict_loop ext testLoader threshold predict_init = Inr st"
  shows "length (proba_list st) = length testLoader \<and> length (hr_list st) = length testLoader"
  using predict_loop_inv[OF assms] by (simp add: predict_init_def)

text \<open>
  Claim C2. For every batch \<open>i\<close> of a run of \<open>predict\<close> that returns, the recorded harmonic
  ratio is the result of \<open>compute_hr\<close> when the maximum probability is at least the
  threshold (the boundary included) and the sentinel 0 otherwise, and \<open>compute_hr\<close> has been
  called on exactly the batches that pass the gate, in order.
\<close>

theorem harmonic_ratio_gate:
  assumes run: "predict_loop ext testLoader threshold predict_init = Inr st"
    and i: "i < length testLoader"
  shows "\<exists>max_value.
           np_max (proba_list st ! i) = Inr max_value
         \<and> hr_list st ! i =
             (if max_value \<ge> threshold then compute_hr ext (testLoader ! i) else Num 0)
         \<and> hr_computed st =
             filter (\<lambda>array. should_verify (clip_probs ext array) threshold) testLoader
         \<and> should_verify (proba_list st ! i) threshold = (max_value \<ge> threshold)"
proof -
  from predict_loop_inv[OF run]
  have p: "proba_list st = map (clip_probs ext) testLoader"
    and h: "hr_list st = map (\<lambda>a. if should_verify (clip_probs ext a) threshold
                                   then compute_hr ext a else Num 0) testLoader"
    and c: "hr_computed st =
              filter (\<lambda>a. should_verify (clip_probs ext a) threshold) testLoader"
    and ne: "list_all (\<lambda>a. clip_probs ext a \<noteq> []) testLoader"
    by (simp_all add: predict_init_def)
  from ne i have "clip_probs ext (testLoader ! i) \<noteq> []" by (simp add: list_all_length)
  then have "np_max (proba_list st ! i) = Inr (Max (set (proba_list st ! i)))"
    using i by (simp add: p np_max_Inr)
  moreover have "hr_list st ! i =
      (if Max (set (proba_list st ! i)) \<ge> threshold then compute_hr ext (testLoader ! i) else Num 0)"
    using i by (simp add: h p should_verify_def)
  ultimately show ?thesis using c by (simp add: should_verify_def)
qed

lemma demo_predict:
  "predict_loop demo_ext [0, 1, 2] default_threshold predict_init =
     Inr \<lparr>proba_list = [[1 / 2, 3 / 10, 1 / 5], [1 / 200, 1 / 200, 99 / 100],
                         [1 / 10000, 1 / 100, 9899 / 10000]],
          hr_list = [Num 0, Num (3 / 20), Num 0],
          hr_computed = [1]\<rparr>"
  by (simp add: demo_ext_def default_threshold_def predict_init_def compute_hr_def np_mean_def)

theorem harmonic_ratio_gate_witness:
  "predict_loop demo_ext [0, 1, 2] default_threshold predict_init =
     Inr \<lparr>proba_list = [[1 / 2, 3 / 10, 1 / 5], [1 / 200, 1 / 200, 99 / 100],
                         [1 / 10000, 1 / 100, 9899 / 10000]],
          hr_list = [Num 0, Num (3 / 20), Num 0],
          hr_computed = [1]\<rparr>
   \<and> (1::nat) < length [0, 1, 2 :: nat]
   \<and> np_max [1 / 200, 1 / 200, 99 / 100] = Inr default_threshold
   \<and> compute_hr demo_ext 1 = Num (3 / 20)
   \<and> filter (\<lambda>array. should_verify (clip_probs demo_ext array) default_threshold) [0, 1, 2] = [1]"
proof -
  have c: "compute_hr demo_ext 1 = Num (3 / 20)"
    by (simp add: demo_ext_def compute_hr_def np_mean_def)
  have m: "np_max [1 / 200, 1 / 200, 99 / 100] = Inr default_threshold"
    by (simp add: default_threshold_def)
  have l: "(1::nat) < length [0, 1, 2 :: nat]" by simp
  have f: "filter (\<lambda>array. should_verify (clip_probs demo_ext array) default_threshold) [0, 1, 2] = [1]"
    by (simp add: should_verify_Cons clip_probs_def demo_ext_def default_threshold_def)
  from harmonic_ratio_gate[OF demo_predict l] demo_predict l m c f show ?thesis
    by blast
qed

section \<open>Intervals and order of the rows\<close>

lemma write_loop_demo:
  "write_loop ''rec1_ANALYZED.csv'' (1 / 10) (99 / 100)
      (zip [[1 / 2, 3 / 10, 1 / 5], [1 / 400, 1 / 400, 199 / 200], [1 / 400, 1 / 400, 199 / 200]]
           [Num 0, Num (3 / 20), Num (1 / 20)]) 0 [] empty_world
   = (None,
      [\<lparr>det_start = 3, det_end = 6, det_label = 2, det_confidence = 199 / 200,
         det_hr = Num (3 / 20)\<rparr>],
      snd (snd (write_loop ''rec1_ANALYZED.csv'' (1 / 10) (99 / 100)
      (zip [[1 / 2, 3 / 10, 1 / 5], [1 / 400, 1 / 400, 199 / 200], [1 / 400, 1 / 400, 199 / 200]]
           [Num 0, Num (3 / 20), Num (1 / 20)]) 0 [] empty_world)))"
  by (simp add: prod_eq_iff)

text \<open>
  Claim C6. When the loop ends without an exception, the rows are, in clip order, one row
  for each clip \<open>i\<close> that passes the gate, with the interval from \<open>i * clip_duration\<close> to
  \<open>(i + 1) * clip_duration\<close> and the label, confidence and harmonic ratio of that clip:
  every row covers exactly one clip, and neighbouring clips with the same label keep
  their own rows. The clip duration is the constant 3 of the source.
\<close>

theorem intervals_from_clip_index:
  assumes run: "write_loop outname min_hr min_conf (zip prob_audioclip_array hr_array) 0 [] w
                  = (None, rows, w')"
  shows "rows =
           map (\<lambda>i. \<lparr>det_start = i * clip_duration, det_end = (i + 1) * clip_duration,
                      det_label = first_index (Max (set (prob_audioclip_array ! i)))
                                    (prob_audioclip_array ! i),
                      det_confidence = Max (set (prob_audioclip_array ! i)),
                      det_hr = hr_array ! i\<rparr>)
             (filter (\<lambda>i. qualifies min_hr min_conf (prob_audioclip_array ! i, hr_array ! i))
                [0..<min (length prob_audioclip_array) (length hr_array)])"
proof -
  let ?items = "zip prob_audioclip_array hr_array"
  have rows: "rows = candidates min_hr min_conf 0 ?items"
    using write_loop_ok_rows[OF run] by simp
  have "map (\<lambda>i. row_of (0 + 3 * i) (?items ! i))
          (filter (\<lambda>i. qualifies min_hr min_conf (?items ! i)) [0..<length ?items])
        = map (\<lambda>i. \<lparr>det_start = i * clip_duration, det_end = (i + 1) * clip_duration,
                      det_label = first_index (Max (set (prob_audioclip_array ! i)))
                                    (prob_audioclip_array ! i),
                      det_confidence = Max (set (prob_audioclip_array ! i)),
                      det_hr = hr_array ! i\<rparr>)
             (filter (\<lambda>i. qualifies min_hr min_conf (prob_audioclip_array ! i, hr_array ! i))
                [0..<min (length prob_audioclip_array) (length hr_array)])"
    by (auto simp: row_of_def clip_duration_def intro!: map_cong filter_cong)
  then show ?thesis unfolding rows candidates_map_filter .
qed

lemma qualifies_Cons:
  "qualifies min_hr min_conf (x # xs, hr) =
     (first_index (fold max xs x) (x # xs) \<noteq> 0 \<and> np_gt hr min_hr \<and> min_conf < fold max xs x)"
  unfolding qualifies_def fst_conv snd_conv by (simp only: fold_max_Max)

theorem intervals_from_clip_index_witness:
  "write_loop ''rec1_ANALYZED.csv'' (1 / 10) (99 / 100)
      (zip [[1 / 2, 3 / 10, 1 / 5], [1 / 400, 1 / 400, 199 / 200], [1 / 400, 1 / 400, 199 / 200]]
           [Num 0, Num (3 / 20), Num (1 / 20)]) 0 [] empty_world
   = (None,
      [\<lparr>det_start = 3, det_end = 6, det_label = 2, det_confidence = 199 / 200,
         det_hr = Num (3 / 20)\<rparr>],
      snd (snd (write_loop ''rec1_ANALYZED.csv'' (1 / 10) (99 / 100)
      (zip [[1 / 2, 3 / 10, 1 / 5], [1 / 400, 1 / 400, 199 / 200], [1 / 400, 1 / 400, 199 / 200]]
           [Num 0, Num (3 / 20), Num (1 / 20)]) 0 [] empty_world)))
   \<and> filter (\<lambda>i. qualifies (1 / 10) (99 / 100)
                 ([[1 / 2, 3 / 10, 1 / 5], [1 / 400, 1 / 400, 199 / 200],
                   [1 / 400, 1 / 400, 199 / 200]] ! i,
                  [Num 0, Num (3 / 20), Num (1 / 20)] ! i))
        [0..<min (length [[1 / 2, 3 / 10, 1 / 5], [1 / 400, 1 / 400, 199 / 200],
                          [1 / 400, 1 / 400, 199 / 200 :: real]])
                 (length [Num 0, Num (3 / 20), Num (1 / 20)])] = [1]
   \<and> 1 * clip_duration = 3 \<and> (1 + 1) * clip_duration = 6"
proof -
  have f: "filter (\<lambda>i. qualifies (1 / 10) (99 / 100)
                 ([[1 / 2, 3 / 10, 1 / 5], [1 / 400, 1 / 400, 199 / 200],
                   [1 / 400, 1 / 400, 199 / 200]] ! i,
                  [Num 0, Num (3 / 20), Num (1 / 20)] ! i))
        [0..<min (length [[1 / 2, 3 / 10, 1 / 5], [1 / 400, 1 / 400, 199 / 200],
                          [1 / 400, 1 / 400, 199 / 200 :: real]])
                 (length [Num 0, Num (3 / 20), Num (1 / 20)])] = [1]"
    by (simp add: upt_rec qualifies_Cons)
  have c: "1 * clip_duration = 3 \<and> (1 + 1) * clip_duration = 6"
    by (simp add: clip_duration_def)
  from intervals_from_clip_index[OF write_loop_demo] write_loop_demo f c show ?thesis
    by blast
qed

text \<open>
  Claim C7. Whatever the input and however the loop ends, the start offsets of the rows
  collected by \<open>write_loop\<close> are in non-decreasing order.
\<close>

theorem rows_chronological:
  assumes "write_loop outname min_hr min_conf (zip prob_audioclip_array hr_array) 0 [] w
             = (e, rows, w')"
  shows "sorted (map det_start rows)"
proof -
  from write_loop_rows[OF assms] obtain k where
    "rows = candidates min_hr min_conf 0 (take k (zip prob_audioclip_array hr_array))"
    by auto
  then show ?thesis by (simp only: candidates_sorted)
qed

lemma write_loop_demo2:
  "write_loop ''rec1_ANALYZED.csv'' (1 / 10) (99 / 100)
      (zip [[1 / 400, 1 / 400, 199 / 200], [1 / 2, 3 / 10, 1 / 5], [1 / 400, 199 / 200, 1 / 400]]
           [Num (3 / 20), Num 0, Num (1 / 5)]) 0 [] empty_world
   = (None,
      [\<lparr>det_start = 0, det_end = 3, det_label = 2, det_confidence = 199 / 200,
         det_hr = Num (3 / 20)\<rparr>,
       \<lparr>det_start = 6, det_end = 9, det_label = 1, det_confidence = 199 / 200,
         det_hr = Num (1 / 5)\<rparr>],
      snd (snd (write_loop ''rec1_ANALYZED.csv'' (1 / 10) (99 / 100)
      (zip [[1 / 400, 1 / 400, 199 / 200], [1 / 2, 3 / 10, 1 / 5], [1 / 400, 199 / 200, 1 / 400]]
           [Num (3 / 20), Num 0, Num (1 / 5)]) 0 [] empty_world)))"
  by (simp add: prod_eq_iff)

theorem rows_chronological_witness:
  "write_loop ''rec1_ANALYZED.csv'' (1 / 10) (99 / 100)
      (zip [[1 / 400, 1 / 400, 199 / 200], [1 / 2, 3 / 10, 1 / 5], [1 / 400, 199 / 200, 1 / 400]]
           [Num (3 / 20), Num 0, Num (1 / 5)]) 0 [] empty_world
   = (None,
      [\<lparr>det_start = 0, det_end = 3, det_label = 2, det_confidence = 199 / 200,
         det_hr = Num (3 / 20)\<rparr>,
       \<lparr>det_start = 6, det_end = 9, det_label = 1, det_confidence = 199 / 200,
         det_hr = Num (1 / 5)\<rparr>],
      snd (snd (write_loop ''rec1_ANALYZED.csv'' (1 / 10) (99 / 100)
      (zip [[1 / 400, 1 / 400, 199 / 200], [1 / 2, 3 / 10, 1 / 5], [1 / 400, 199 / 200, 1 / 400]]
           [Num (3 / 20), Num 0, Num (1 / 5)]) 0 [] empty_world)))
   \<and> sorted (map det_start
        [\<lparr>det_start = 0, det_end = 3, det_label = 2, det_confidence = 199 / 200,
           det_hr = Num (3 / 20)\<rparr>,
         \<lparr>det_start = 6, det_end = 9, det_label = 1, det_confidence = 199 / 200,
           det_hr = Num (1 / 5)\<rparr>])"
  using rows_chronological[OF write_loop_demo2] write_loop_demo2 by blast

section \<open>Probabilities, label and confidence\<close>

lemma predict_Inr:
  assumes "predict ext testLoader threshold = Inr (prob_audioclip_array, hr_array)"
  shows "prob_audioclip_array = map (clip_probs ext) testLoader
       \<and> hr_array = map (\<lambda>a. if should_verify (clip_probs ext a) threshold
                               then compute_hr ext a else Num 0) testLoader
       \<and> list_all (\<lambda>a. clip_probs ext a \<noteq> []) testLoader"
proof -
  from assms obtain st where
    st: "predict_loop ext testLoader threshold predict_init = Inr st"
    and "prob_audioclip_array = proba_list st" "hr_array = hr_list st"
    by (auto simp: predict_def split: sum.splits)
  with predict_loop_inv[OF st] show ?thesis by (simp add: predict_init_def)
qed

lemma rows_of_clip:
  assumes run: "write_loop outname min_hr min_conf items 0 [] w = (e, rows, w')"
    and r: "r \<in> set rows" and s: "det_start r = 3 * i"
  shows "i < length items \<and> qualifies min_hr min_conf (items ! i) \<and> r = row_of (3 * i) (items ! i)"
proof -
  from write_loop_rows[OF run] obtain k where
    "rows = candidates min_hr min_conf 0 (take k items)" by auto
  with r candidates_take_subset have "r \<in> set (candidates min_hr min_conf 0 items)"
    by blast
  then obtain j where j: "j < length items" "qualifies min_hr min_conf (items ! j)"
    "r = row_of (0 + 3 * j) (items ! j)"
    unfolding candidates_start by blast
  with s have "j = i" by (simp add: row_of_def)
  with j show ?thesis by simp
qed

lemma first_index_Max:
  assumes "xs \<noteq> []"
  shows "first_index (Max (set xs)) xs < length xs
       \<and> xs ! first_index (Max (set xs)) xs = Max (set xs)
       \<and> (\<forall>j < first_index (Max (set xs)) xs. xs ! j < Max (set xs))"
proof -
  have "Max (set xs) \<in> set xs" using assms by (intro Max_in) simp_all
  from first_index_props[OF this]
  have p: "first_index (Max (set xs)) xs < length xs"
    "xs ! first_index (Max (set xs)) xs = Max (set xs)"
    "\<forall>j < first_index (Max (set xs)) xs. xs ! j \<noteq> Max (set xs)" by simp_all
  have "xs ! j < Max (set xs)" if "j < first_index (Max (set xs)) xs" for j
  proof -
    from that p(1) have "j < length xs" by simp
    then have "xs ! j \<le> Max (set xs)" by (intro Max_ge) simp_all
    moreover from that p(3) have "xs ! j \<noteq> Max (set xs)" by simp
    ultimately show ?thesis by simp
  qed
  with p show ?thesis by simp
qed

text \<open>
  Claim C9. For every batch \<open>i\<close> of a run of \<open>predict\<close> that returns, the probabilities
  handed to \<open>write_results\<close> are the exponentials of the first row of the model's output;
  the label is the first index at which these probabilities reach their maximum, the
  confidence is that maximum, and a row written for the clip carries both.
\<close>

theorem probabilities_by_exponentiation:
  assumes pred: "predict ext testLoader threshold = Inr (prob_audioclip_array, hr_array)"
    and run: "write_loop outname min_hr min_conf (zip prob_audioclip_array hr_array) 0 [] w
                = (e, rows, w')"
    and i: "i < length testLoader"
  shows "\<exists>output0 rest label max_value.
           model ext (testLoader ! i) = output0 # rest
         \<and> prob_audioclip_array ! i = map exp output0
         \<and> np_argmax (prob_audioclip_array ! i) = Inr label
         \<and> np_max (prob_audioclip_array ! i) = Inr max_value
         \<and> max_value = Max (set (map exp output0))
         \<and> label < length output0
         \<and> exp (output0 ! label) = max_value
         \<and> (\<forall>j < label. exp (output0 ! j) < max_value)
         \<and> (\<forall>r \<in> set rows. det_start r = 3 * i \<longrightarrow>
               det_label r = label \<and> det_confidence r = max_value)"
proof -
  let ?a = "testLoader ! i"
  let ?conf = "prob_audioclip_array ! i"
  from predict_Inr[OF pred]
  have ps: "prob_audioclip_array = map (clip_probs ext) testLoader"
    and hs: "length hr_array = length testLoader"
    and ne: "list_all (\<lambda>a. clip_probs ext a \<noteq> []) testLoader" by simp_all
  have conf: "?conf = clip_probs ext ?a" using i by (simp add: ps)
  from ne i have cne: "clip_probs ext ?a \<noteq> []" by (simp add: list_all_length)
  then obtain output0 rest where out: "model ext ?a = output0 # rest"
    by (cases "model ext ?a") (simp_all add: clip_probs_def)
  then have exp: "?conf = map exp output0" by (simp add: conf clip_probs_def)
  with cne conf have cne': "?conf \<noteq> []" by simp
  define label where "label = first_index (Max (set ?conf)) ?conf"
  define max_value where "max_value = Max (set ?conf)"
  from first_index_Max[OF cne']
  have fi: "label < length ?conf" "?conf ! label = max_value"
    "\<forall>j < label. ?conf ! j < max_value"
    unfolding label_def max_value_def by simp_all
  have a: "np_argmax ?conf = Inr label" using cne' by (simp add: np_argmax_Inr label_def)
  have m: "np_max ?conf = Inr max_value" using cne' by (simp add: np_max_Inr max_value_def)
  have l: "label < length output0" using fi(1) by (simp add: exp)
  have v: "exp (output0 ! label) = max_value" using fi(2) l by (simp add: exp)
  have b: "\<forall>j < label. exp (output0 ! j) < max_value"
  proof (intro allI impI)
    fix j assume "j < label"
    with fi(3) l show "exp (output0 ! j) < max_value" by (simp add: exp)
  qed
  have rws: "\<forall>r \<in> set rows. det_start r = 3 * i \<longrightarrow>
               det_label r = label \<and> det_confidence r = max_value"
  proof (intro ballI impI)
    fix r assume "r \<in> set rows" "det_start r = 3 * i"
    from rows_of_clip[OF run this]
    have "r = row_of (3 * i) (zip prob_audioclip_array hr_array ! i)"
      and "i < length (zip prob_audioclip_array hr_array)" by simp_all
    then show "det_label r = label \<and> det_confidence r = max_value"
      by (simp add: row_of_def label_def max_value_def)
  qed
  have mv: "max_value = Max (set (map exp output0))"
    unfolding max_value_def by (simp only: exp)
  from out exp a m mv l v b rws show ?thesis by blast
qed

lemma demo_predict_pair:
  "predict demo_ext [0, 1, 2] default_threshold =
     Inr ([[1 / 2, 3 / 10, 1 / 5], [1 / 200, 1 / 200, 99 / 100],
           [1 / 10000, 1 / 100, 9899 / 10000]],
          [Num 0, Num (3 / 20), Num 0])"
  unfolding predict_def by (simp only: demo_predict) simp

lemma write_loop_demo_predicted:
  "write_loop ''rec1_ANALYZED.csv'' min_hr (1 / 2)
      (zip [[1 / 2, 3 / 10, 1 / 5], [1 / 200, 1 / 200, 99 / 100],
            [1 / 10000, 1 / 100, 9899 / 10000]]
           [Num 0, Num (3 / 20), Num 0]) 0 [] empty_world
   = (None,
      fst (snd (write_loop ''rec1_ANALYZED.csv'' min_hr (1 / 2)
      (zip [[1 / 2, 3 / 10, 1 / 5], [1 / 200, 1 / 200, 99 / 100],
            [1 / 10000, 1 / 100, 9899 / 10000]]
           [Num 0, Num (3 / 20), Num 0]) 0 [] empty_world)),
      snd (snd (write_loop ''rec1_ANALYZED.csv'' min_hr (1 / 2)
      (zip [[1 / 2, 3 / 10, 1 / 5], [1 / 200, 1 / 200, 99 / 100],
            [1 / 10000, 1 / 100, 9899 / 10000]]
           [Num 0, Num (3 / 20), Num 0]) 0 [] empty_world)))"
  by (simp add: prod_eq_iff Let_def)

theorem probabilities_by_exponentiation_witness:
  "predict demo_ext [0, 1, 2] default_threshold =
     Inr ([[1 / 2, 3 / 10, 1 / 5], [1 / 200, 1 / 200, 99 / 100],
           [1 / 10000, 1 / 100, 9899 / 10000]],
          [Num 0, Num (3 / 20), Num 0])
   \<and> fst (write_loop ''rec1_ANALYZED.csv'' (1 / 10) (1 / 2)
      (zip [[1 / 2, 3 / 10, 1 / 5], [1 / 200, 1 / 200, 99 / 100],
            [1 / 10000, 1 / 100, 9899 / 10000]]
           [Num 0, Num (3 / 20), Num 0]) 0 [] empty_world) = None
   \<and> (1::nat) < length [0, 1, 2 :: nat]
   \<and> model demo_ext 1 = [[ln (1 / 200), ln (1 / 200), ln (99 / 100)]]
   \<and> map exp [ln (1 / 200), ln (1 / 200), ln (99 / 100)] = [1 / 200, 1 / 200, 99 / 100 :: real]
   \<and> np_argmax [1 / 200, 1 / 200, 99 / 100] = Inr 2
   \<and> np_max [1 / 200, 1 / 200, 99 / 100] = Inr (99 / 100)
   \<and> fst (snd (write_loop ''rec1_ANALYZED.csv'' (1 / 10) (1 / 2)
      (zip [[1 / 2, 3 / 10, 1 / 5], [1 / 200, 1 / 200, 99 / 100],
            [1 / 10000, 1 / 100, 9899 / 10000]]
           [Num 0, Num (3 / 20), Num 0]) 0 [] empty_world))
       = [\<lparr>det_start = 3, det_end = 6, det_label = 2, det_confidence = 99 / 100,
           det_hr = Num (3 / 20)\<rparr>]"
proof -
  have l: "(1::nat) < length [0, 1, 2 :: nat]" by simp
  have ok: "fst (write_loop ''rec1_ANALYZED.csv'' (1 / 10) (1 / 2)
      (zip [[1 / 2, 3 / 10, 1 / 5], [1 / 200, 1 / 200, 99 / 100],
            [1 / 10000, 1 / 100, 9899 / 10000]]
           [Num 0, Num (3 / 20), Num 0]) 0 [] empty_world) = None" by simp
  have md: "model demo_ext 1 = [[ln (1 / 200), ln (1 / 200), ln (99 / 100)]]"
    by (simp add: demo_ext_def)
  have ex: "map exp [ln (1 / 200), ln (1 / 200), ln (99 / 100)] = [1 / 200, 1 / 200, 99 / 100 :: real]"
    by simp
  have am: "np_argmax [1 / 200, 1 / 200, 99 / 100] = Inr 2" by simp
  have mx: "np_max [1 / 200, 1 / 200, 99 / 100] = Inr (99 / 100)" by simp
  have rw: "fst (snd (write_loop ''rec1_ANALYZED.csv'' (1 / 10) (1 / 2)
      (zip [[1 / 2, 3 / 10, 1 / 5], [1 / 200, 1 / 200, 99 / 100],
            [1 / 10000, 1 / 100, 9899 / 10000]]
           [Num 0, Num (3 / 20), Num 0]) 0 [] empty_world))
       = [\<lparr>det_start = 3, det_end = 6, det_label = 2, det_confidence = 99 / 100,
           det_hr = Num (3 / 20)\<rparr>]" by simp
  from probabilities_by_exponentiation[OF demo_predict_pair write_loop_demo_predicted [of "1 / 10"] l]
    demo_predict_pair ok l md ex am mx rw
  show ?thesis by - (intro conjI, assumption+)
qed

section \<open>Clips skipped by the confidence gate\<close>

text \<open>
  Claim C10. When \<open>min_hr\<close> is not negative, a clip whose maximum probability is below
  the threshold of \<open>predict\<close> has the recorded harmonic ratio 0 and no row of
  \<open>write_results\<close> starts at its offset, also for \<open>min_hr = 0\<close>.
\<close>

theorem skipped_clip_never_detected:
  assumes pred: "predict ext testLoader threshold = Inr (prob_audioclip_array, hr_array)"
    and run: "write_loop outname min_hr min_conf (zip prob_audioclip_array hr_array) 0 [] w
                = (e, rows, w')"
    and min_hr: "0 \<le> min_hr"
    and i: "i < length testLoader"
    and mx: "np_max (prob_audioclip_array ! i) = Inr max_value"
    and skipped: "max_value < threshold"
  shows "hr_array ! i = Num 0 \<and> \<not> (\<exists>r \<in> set rows. det_start r = 3 * i)"
proof -
  from predict_Inr[OF pred]
  have ps: "prob_audioclip_array = map (clip_probs ext) testLoader"
    and hs: "hr_array = map (\<lambda>a. if should_verify (clip_probs ext a) threshold
                               then compute_hr ext a else Num 0) testLoader"
    by simp_all
  from mx have "max_value = Max (set (prob_audioclip_array ! i))" by (simp add: np_max_Inr)
  with skipped i have "\<not> should_verify (clip_probs ext (testLoader ! i)) threshold"
    by (simp add: should_verify_def ps)
  with i have zero: "hr_array ! i = Num 0" by (simp add: hs)
  have "\<not> (\<exists>r \<in> set rows. det_start r = 3 * i)"
  proof
    assume "\<exists>r \<in> set rows. det_start r = 3 * i"
    then obtain r where "r \<in> set rows" "det_start r = 3 * i" by blast
    from rows_of_clip[OF run this]
    have "i < length (zip prob_audioclip_array hr_array)"
      and "qualifies min_hr min_conf (zip prob_audioclip_array hr_array ! i)" by blast+
    then have "np_gt (hr_array ! i) min_hr" by (simp add: qualifies_def)
    with zero min_hr show False by simp
  qed
  with zero show ?thesis by simp
qed

theorem skipped_clip_never_detected_witness:
  "predict demo_ext [0, 1, 2] default_threshold =
     Inr ([[1 / 2, 3 / 10, 1 / 5], [1 / 200, 1 / 200, 99 / 100],
           [1 / 10000, 1 / 100, 9899 / 10000]],
          [Num 0, Num (3 / 20), Num 0])
   \<and> fst (write_loop ''rec1_ANALYZED.csv'' 0 (1 / 2)
      (zip [[1 / 2, 3 / 10, 1 / 5], [1 / 200, 1 / 200, 99 / 100],
            [1 / 10000, 1 / 100, 9899 / 10000]]
           [Num 0, Num (3 / 20), Num 0]) 0 [] empty_world) = None
   \<and> (0::real) \<le> 0
   \<and> (2::nat) < length [0, 1, 2 :: nat]
   \<and> np_max [1 / 10000, 1 / 100, 9899 / 10000] = Inr (9899 / 10000)
   \<and> 9899 / 10000 < default_threshold
   \<and> [Num 0, Num (3 / 20), Num 0] ! 2 = Num 0
   \<and> map det_start (fst (snd (write_loop ''rec1_ANALYZED.csv'' 0 (1 / 2)
      (zip [[1 / 2, 3 / 10, 1 / 5], [1 / 200, 1 / 200, 99 / 100],
            [1 / 10000, 1 / 100, 9899 / 10000]]
           [Num 0, Num (3 / 20), Num 0]) 0 [] empty_world))) = [3]"
proof -
  have z: "(0::real) \<le> 0" by simp
  have l: "(2::nat) < length [0, 1, 2 :: nat]" by simp
  have ok: "fst (write_loop ''rec1_ANALYZED.csv'' 0 (1 / 2)
      (zip [[1 / 2, 3 / 10, 1 / 5], [1 / 200, 1 / 200, 99 / 100],
            [1 / 10000, 1 / 100, 9899 / 10000]]
           [Num 0, Num (3 / 20), Num 0]) 0 [] empty_world) = None" by simp
  have mx: "np_max ([[1 / 2, 3 / 10, 1 / 5], [1 / 200, 1 / 200, 99 / 100],
           [1 / 10000, 1 / 100, 9899 / 10000]] ! 2) = Inr (9899 / 10000)" by simp
  have mx': "np_max [1 / 10000, 1 / 100, 9899 / 10000] = Inr (9899 / 10000)" by simp
  have lt: "9899 / 10000 < default_threshold" by (simp add: default_threshold_def)
  have nth: "[Num 0, Num (3 / 20), Num 0] ! 2 = Num 0" by simp
  have rw: "map det_start (fst (snd (write_loop ''rec1_ANALYZED.csv'' 0 (1 / 2)
      (zip [[1 / 2, 3 / 10, 1 / 5], [1 / 200, 1 / 200, 99 / 100],
            [1 / 10000, 1 / 100, 9899 / 10000]]
           [Num 0, Num (3 / 20), Num 0]) 0 [] empty_world))) = [3]" by simp
  from skipped_clip_never_detected[OF demo_predict_pair write_loop_demo_predicted [of 0] z l mx lt]
    demo_predict_pair ok z l mx' lt nth rw
  show ?thesis by blast
qed

section \<open>Where the code departs from the specification\<close>

text \<open>
  Claim C4 (not met by the code). The block that reports "no detection" is inside the loop:
  two background clips give the signal twice (printed and logged each time), and an empty
  clip sequence gives no signal at all. No file is written in either case.
\<close>

theorem no_detection_signal_per_clip:
  "write_results [[9 / 10, 1 / 10], [4 / 5, 1 / 5]] [Num 0, Num 0]
      ''/data/SNOWMOBILE_RESULTS/rec1_ANALYZED.csv'' (1 / 10) (99 / 100) empty_world
   = (None,
      \<lparr>files = Map.empty, dirs = {},
       events = [Print (No_detection ''rec1_ANALYZED.csv''),
                 LogInfo (No_detection ''rec1_ANALYZED.csv''),
                 Print (No_detection ''rec1_ANALYZED.csv''),
                 LogInfo (No_detection ''rec1_ANALYZED.csv'')]\<rparr>)
   \<and> write_results [] [] ''/data/SNOWMOBILE_RESULTS/rec1_ANALYZED.csv'' (1 / 10) (99 / 100)
         empty_world
       = (None, \<lparr>files = Map.empty, dirs = {}, events = []\<rparr>)"
  by (simp add: write_results_def empty_world_def emit_def basename_def)

text \<open>
  Claim C5 (not met by the code). The block that writes the file is inside the loop: with
  two qualifying clips the file is written twice, the first time with the first row only.
\<close>

theorem file_rewritten_every_clip:
  "events (snd (write_results [[1 / 200, 199 / 200], [1 / 200, 199 / 200]]
                  [Num (1 / 2), Num (1 / 2)]
                  ''/data/SNOWMOBILE_RESULTS/rec1_ANALYZED.csv'' (1 / 10) (99 / 100) empty_world))
   = [Write_file ''/data/SNOWMOBILE_RESULTS/rec1_ANALYZED.csv''
        [Header header,
         Row \<lparr>det_start = 0, det_end = 3, det_label = 1, det_confidence = 199 / 200,
             det_hr = Num (1 / 2)\<rparr>],
      Write_file ''/data/SNOWMOBILE_RESULTS/rec1_ANALYZED.csv''
        [Header header,
         Row \<lparr>det_start = 0, det_end = 3, det_label = 1, det_confidence = 199 / 200,
             det_hr = Num (1 / 2)\<rparr>,
         Row \<lparr>det_start = 3, det_end = 6, det_label = 1, det_confidence = 199 / 200,
             det_hr = Num (1 / 2)\<rparr>]]"
  by (simp add: write_results_def empty_world_def write_csv_def)

lemma demo_paths:
  "dirname ''/data/rec1.wav'' = ''/data''"
  "path_join ''/data'' ''SNOWMOBILE_RESULTS'' = ''/data/SNOWMOBILE_RESULTS''"
  "hd (str_split CHR ''.'' (last (str_split CHR ''/'' ''/data/rec1.wav''))) @ ''_ANALYZED.csv''
     = ''rec1_ANALYZED.csv''"
  "path_join ''/data/SNOWMOBILE_RESULTS'' ''rec1_ANALYZED.csv''
     = ''/data/SNOWMOBILE_RESULTS/rec1_ANALYZED.csv''"
  "basename ''/data/SNOWMOBILE_RESULTS/rec1_ANALYZED.csv'' = ''rec1_ANALYZED.csv''"
  by (simp_all add: dirname_def path_join_def basename_def)

text \<open>
  Claim C3 (not met by the code). \<open>analyzeFile\<close> tests the bare file name
  \<^verbatim>\<open>rec1_ANALYZED.csv\<close>, relative to the working directory, and not the destination path
  in the result folder. With the artifact in place the second call runs the predictions
  again and writes the destination anew.
\<close>

theorem existing_artifact_recomputed:
  "files existing_world ''/data/SNOWMOBILE_RESULTS/rec1_ANALYZED.csv''
     = Some [Header header,
             Row \<lparr>det_start = 0, det_end = 3, det_label = 1, det_confidence = 199 / 200,
                 det_hr = Num (2 / 5)\<rparr>]
   \<and> fst (analyzeFile demo_ext ''/data/rec1.wav'' (1 / 10) (1 / 2) 1 existing_world) = None
   \<and> events (snd (analyzeFile demo_ext ''/data/rec1.wav'' (1 / 10) (1 / 2) 1 existing_world))
     = [Print (No_detection ''rec1_ANALYZED.csv''),
        LogInfo (No_detection ''rec1_ANALYZED.csv''),
        Write_file ''/data/SNOWMOBILE_RESULTS/rec1_ANALYZED.csv''
          [Header header,
           Row \<lparr>det_start = 3, det_end = 6, det_label = 2, det_confidence = 99 / 100,
               det_hr = Num (3 / 20)\<rparr>],
        Write_file ''/data/SNOWMOBILE_RESULTS/rec1_ANALYZED.csv''
          [Header header,
           Row \<lparr>det_start = 3, det_end = 6, det_label = 2, det_confidence = 99 / 100,
               det_hr = Num (3 / 20)\<rparr>],
        Print (Finished ''/data/rec1.wav''),
        LogInfo (Finished ''/data/rec1.wav'')]
   \<and> files (snd (analyzeFile demo_ext ''/data/rec1.wav'' (1 / 10) (1 / 2) 1 existing_world))
         ''/data/SNOWMOBILE_RESULTS/rec1_ANALYZED.csv''
     = Some [Header header,
             Row \<lparr>det_start = 3, det_end = 6, det_label = 2, det_confidence = 99 / 100,
                 det_hr = Num (3 / 20)\<rparr>]"
proof -
  have ext: "get_processed_list demo_ext ''/data/rec1.wav'' = [0, 1, 2]"
    "DataLoader demo_ext [0, 1, 2] 1 = [0, 1, 2]"
    by (simp_all add: demo_ext_def)
  have run: "analyzeFile demo_ext ''/data/rec1.wav'' (1 / 10) (1 / 2) 1 existing_world
      = (case write_results [[1 / 2, 3 / 10, 1 / 5], [1 / 200, 1 / 200, 99 / 100],
                             [1 / 10000, 1 / 100, 9899 / 10000]]
                [Num 0, Num (3 / 20), Num 0]
                ''/data/SNOWMOBILE_RESULTS/rec1_ANALYZED.csv'' (1 / 10) (1 / 2) existing_world of
           (Some e, w') \<Rightarrow> (Some e, w')
         | (None, w') \<Rightarrow>
             (None, emit [Print (Finished ''/data/rec1.wav''),
                          LogInfo (Finished ''/data/rec1.wav'')] w'))"
    unfolding analyzeFile_def Let_def demo_paths ext demo_predict_pair
    by (simp add: path_exists_def existing_world_def)
  show ?thesis
    unfolding run
    by (simp add: write_results_def existing_world_def write_csv_def emit_def demo_paths)
qed

end
